theory Spec2Isabelle
  imports Complex_Main "HOL-Library.Sublist"
begin

section \<open>Python values shared by both modules\<close>

text \<open>
  A Python \<open>str\<close> is modelled as a \<open>string\<close> in which every \<open>char\<close> stands for one code
  point, so \<open>length\<close> is Python's \<open>len\<close>. Code points above U+00FF lie outside the model.
  An exception is a value; \<open>str_exn\<close> is Python's \<open>str(e)\<close>.
\<close>

datatype exn =
    ValueError string
  | AttributeError string
  | TypeError string
  | UnicodeDecodeError string
  | JSONDecodeError string
  | OtherException string

fun str_exn :: "exn \<Rightarrow> string" where
  "str_exn (ValueError m) = m"
| "str_exn (AttributeError m) = m"
| "str_exn (TypeError m) = m"
| "str_exn (UnicodeDecodeError m) = m"
| "str_exn (JSONDecodeError m) = m"
| "str_exn (OtherException m) = m"

definition dq :: char where
  "dq = CHR 0x22"

definition sq :: char where
  "sq = CHR 0x27"

definition quoted :: "string \<Rightarrow> string" where
  "quoted s = dq # s @ [dq]"

text \<open>
  \<open>is_space\<close> is \<open>str.isspace\<close> on one code point, which is also what \<open>\s\<close> matches in a
  \<open>str\<close> pattern: U+0009..U+000D, U+001C..U+001F, U+0020, U+0085 and U+00A0 below U+0100.
\<close>

definition is_space :: "char \<Rightarrow> bool" where
  "is_space c = (c \<in> set [CHR 0x09, CHR 0x0A, CHR 0x0B, CHR 0x0C, CHR 0x0D,
                           CHR 0x1C, CHR 0x1D, CHR 0x1E, CHR 0x1F, CHR 0x20,
                           CHR 0x85, CHR 0xA0])"

text \<open>\<open>s.strip(chars)\<close> and \<open>s.strip()\<close>.\<close>

definition strip_chars :: "string \<Rightarrow> string \<Rightarrow> string" where
  "strip_chars cs s =
     rev (dropWhile (\<lambda>c. c \<in> set cs) (rev (dropWhile (\<lambda>c. c \<in> set cs) s)))"

definition strip :: "string \<Rightarrow> string" where
  "strip s = rev (dropWhile is_space (rev (dropWhile is_space s)))"

text \<open>\<open>s.split(sep)\<close> for a one-character separator: never the empty list.\<close>

fun split_on :: "char \<Rightarrow> string \<Rightarrow> string list" where
  "split_on sep [] = [[]]"
| "split_on sep (c # cs) =
     (if c = sep then [] # split_on sep cs
      else (case split_on sep cs of
              [] \<Rightarrow> [[c]]
            | seg # segs \<Rightarrow> (c # seg) # segs))"

text \<open>\<open>needle in hay\<close> on strings.\<close>

fun contains :: "string \<Rightarrow> string \<Rightarrow> bool" where
  "contains needle [] = (needle = [])"
| "contains needle (c # cs) = (prefix needle (c # cs) \<or> contains needle cs)"

text \<open>\<open>d.get(k, default)\<close> on a dict written as an association list.\<close>

definition dict_get :: "('k \<times> 'v) list \<Rightarrow> 'k \<Rightarrow> 'v \<Rightarrow> 'v" where
  "dict_get d k dflt = (case map_of d k of None \<Rightarrow> dflt | Some v \<Rightarrow> v)"

text \<open>\<open>str(n)\<close> for a non-negative integer.\<close>

fun str_nat :: "nat \<Rightarrow> string" where
  "str_nat n =
     (if n < 10 then [char_of (48 + n)]
      else str_nat (n div 10) @ [char_of (48 + n mod 10)])"

section \<open>services/ollama\_service.py\<close>

text \<open>
  The value \<open>json.loads\<close> returns. A JSON object is an association list with the keys
  the resulting dict has.
\<close>

datatype json =
    JNull
  | JBool bool
  | JInt int
  | JFloat rat
  | JStr string
  | JArr "json list"
  | JObj "(string \<times> json) list"

text \<open>Python's truth value of such a value (\<open>if content:\<close>).\<close>

fun truthy :: "json \<Rightarrow> bool" where
  "truthy JNull = False"
| "truthy (JBool b) = b"
| "truthy (JInt n) = (n \<noteq> 0)"
| "truthy (JFloat q) = (q \<noteq> 0)"
| "truthy (JStr s) = (s \<noteq> [])"
| "truthy (JArr xs) = (xs \<noteq> [])"
| "truthy (JObj kvs) = (kvs \<noteq> [])"

fun type_name :: "json \<Rightarrow> string" where
  "type_name JNull = ''NoneType''"
| "type_name (JBool b) = ''bool''"
| "type_name (JInt n) = ''int''"
| "type_name (JFloat q) = ''float''"
| "type_name (JStr s) = ''str''"
| "type_name (JArr xs) = ''list''"
| "type_name (JObj kvs) = ''dict''"

text \<open>
  The library and framework functions the service calls, which are not code of this
  repository, are parameters: \<open>bytes.decode("utf-8")\<close> (\<open>Inl\<close> the message of the
  \<open>UnicodeDecodeError\<close>), \<open>json.loads\<close> (\<open>Inl\<close> the message of the \<open>JSONDecodeError\<close>) and
  \<open>format_user_message\<close> of \<open>app.utils.format_message\<close>.
\<close>

record library =
  decode_utf8 :: "string \<Rightarrow> string + string"
  json_loads :: "string \<Rightarrow> string + json"
  format_user_message :: "(string \<times> string) list \<Rightarrow> string"

text \<open>The fields \<open>__init__\<close> reads from the environment.\<close>

record OllamaService =
  base_url :: string
  model :: string

text \<open>The JSON body posted to \<open>/api/generate\<close>.\<close>

record generate_payload =
  payload_model :: string
  payload_prompt :: string
  payload_temperature :: rat
  payload_stream :: bool

text \<open>
  What the HTTP exchange gives back: the client library raises (\<open>aiohttp.ClientError\<close>,
  or an exception of \<open>requests\<close>, with its message), or a response arrives with a status, a body text and, when it is
  read as a stream, the lines of the body as raw bytes. The body is taken as received in
  full; a connection that breaks while the body is read shows in \<open>event_generator\<close> as
  an engine that raises after some fragments.
\<close>

datatype http_outcome =
    ClientError string
  | HttpResponse nat string "string list"

text \<open>The literal dict of lines 36-40 and 90-94.\<close>

definition temperature_table :: "(string \<times> rat) list" where
  "temperature_table = [(''low'', 1 / 10), (''medium'', 1 / 2), (''high'', 9 / 10)]"

definition system_prompt_text :: "string \<Rightarrow> string \<Rightarrow> string" where
  "system_prompt_text system_prompt user_message =
     ''<system>'' @ [CHR 0x0A] @ system_prompt @ [CHR 0x0A] @ ''</system>''
       @ [CHR 0x0A, CHR 0x0A] @ user_message"

text \<open>The body \<open>call_o3_api\<close> posts (lines 33-54).\<close>

definition call_o3_api_payload ::
  "library \<Rightarrow> OllamaService \<Rightarrow> string \<Rightarrow> (string \<times> string) list \<Rightarrow> string
     \<Rightarrow> generate_payload" where
  "call_o3_api_payload lib self system_prompt data reasoning_effort =
     (let user_message = format_user_message lib data;
          temperature = dict_get temperature_table reasoning_effort (1 / 10)
      in \<lparr>payload_model = model self,
          payload_prompt = system_prompt_text system_prompt user_message,
          payload_temperature = temperature,
          payload_stream = False\<rparr>)"

text \<open>
  \<open>call_o3_api\<close> (lines 13-65), with the HTTP exchange as the parameter \<open>post\<close>. Its
  handler prints and re-raises, so every exception leaves as it is: the one the client
  library raises, the \<open>ValueError\<close> for a status other than 200, the one of
  \<open>response.json()\<close>, and the \<open>AttributeError\<close> of \<open>result.get\<close> when the body is not an
  object.
\<close>

definition call_o3_api ::
  "library \<Rightarrow> OllamaService \<Rightarrow> (string \<Rightarrow> generate_payload \<Rightarrow> http_outcome)
     \<Rightarrow> string \<Rightarrow> (string \<times> string) list \<Rightarrow> string option \<Rightarrow> string
     \<Rightarrow> exn + json" where
  "call_o3_api lib self post system_prompt data api_key reasoning_effort =
     (case post (base_url self @ ''/api/generate'')
             (call_o3_api_payload lib self system_prompt data reasoning_effort) of
        ClientError m \<Rightarrow> Inl (OtherException m)
      | HttpResponse status response_text lines \<Rightarrow>
          if status \<noteq> 200
          then Inl (ValueError (''Ollama API returned status code '' @ str_nat status
                                 @ '': '' @ response_text))
          else (case json_loads lib response_text of
                  Inl m \<Rightarrow> Inl (JSONDecodeError m)
                | Inr (JObj kvs) \<Rightarrow> Inr (dict_get kvs ''response'' (JStr []))
                | Inr result \<Rightarrow>
                    Inl (AttributeError
                           ([sq] @ type_name result @ [sq] @ '' object has no attribute ''
                              @ [sq] @ ''get'' @ [sq]))))"

text \<open>The body \<open>call_o3_api_stream\<close> posts (lines 87-101).\<close>

definition call_o3_api_stream_payload ::
  "library \<Rightarrow> OllamaService \<Rightarrow> string \<Rightarrow> (string \<times> string) list \<Rightarrow> string
     \<Rightarrow> generate_payload" where
  "call_o3_api_stream_payload lib self system_prompt data reasoning_effort =
     (let user_message = format_user_message lib data;
          temperature = dict_get temperature_table reasoning_effort (1 / 10)
      in \<lparr>payload_model = model self,
          payload_prompt = system_prompt_text system_prompt user_message,
          payload_temperature = temperature,
          payload_stream = True\<rparr>)"

text \<open>
  The loop over \<open>response.content\<close> (lines 118-132). The result is the fragments yielded,
  in order, and the exception that ended the generator, if one did. A line that
  \<open>json.loads\<close> rejects is caught by the \<open>except json.JSONDecodeError\<close> of the loop body;
  \<open>decode\<close> stands outside that \<open>try\<close> and \<open>data.get\<close> raises \<open>AttributeError\<close>, which that
  handler does not catch, so both reach the outer \<open>except Exception\<close>, which re-raises.
  \<open>line_count\<close> only feeds a warning that is printed and is left out.
\<close>

fun read_lines :: "library \<Rightarrow> string list \<Rightarrow> json list \<times> exn option" where
  "read_lines lib [] = ([], None)"
| "read_lines lib (raw # rest) =
     (case decode_utf8 lib raw of
        Inl m \<Rightarrow> ([], Some (UnicodeDecodeError m))
      | Inr text \<Rightarrow>
          (let line = strip text
           in if line = [] then read_lines lib rest
              else (case json_loads lib line of
                      Inl m \<Rightarrow> read_lines lib rest
                    | Inr (JObj kvs) \<Rightarrow>
                        (let content = dict_get kvs ''response'' (JStr [])
                         in if truthy content
                            then (case read_lines lib rest of
                                    (fragments, raised) \<Rightarrow> (content # fragments, raised))
                            else read_lines lib rest)
                    | Inr data \<Rightarrow>
                        ([], Some (AttributeError
                           ([sq] @ type_name data @ [sq] @ '' object has no attribute ''
                              @ [sq] @ ''get'' @ [sq]))))))"

text \<open>\<open>call_o3_api_stream\<close> (lines 67-142), with the HTTP exchange as the parameter \<open>post\<close>.\<close>

definition call_o3_api_stream ::
  "library \<Rightarrow> OllamaService \<Rightarrow> (string \<Rightarrow> generate_payload \<Rightarrow> http_outcome)
     \<Rightarrow> string \<Rightarrow> (string \<times> string) list \<Rightarrow> string option \<Rightarrow> string
     \<Rightarrow> json list \<times> exn option" where
  "call_o3_api_stream lib self post system_prompt data api_key reasoning_effort =
     (case post (base_url self @ ''/api/generate'')
             (call_o3_api_stream_payload lib self system_prompt data reasoning_effort) of
        ClientError m \<Rightarrow> ([], Some (ValueError (''Failed to connect to Ollama API: '' @ m)))
      | HttpResponse status error_text lines \<Rightarrow>
          if status \<noteq> 200
          then ([], Some (ValueError (''Ollama API returned status code '' @ str_nat status
                                       @ '': '' @ error_text)))
          else read_lines lib lines)"

text \<open>
  The reading of the stream stated apart from the loop. A transport line holds a record
  when it decodes, is not blank and parses to an object; the content of a record is its
  \<open>response\<close> field, the empty string when the field is missing. The fragments to
  expect are the non-empty contents of the records, in order.
\<close>

definition record_of :: "library \<Rightarrow> string \<Rightarrow> (string \<times> json) list option" where
  "record_of lib raw =
     (case decode_utf8 lib raw of
        Inl m \<Rightarrow> None
      | Inr line \<Rightarrow>
          if strip line = [] then None
          else (case json_loads lib (strip line) of
                  Inr (JObj kvs) \<Rightarrow> Some kvs
                | _ \<Rightarrow> None))"

definition expected_fragments :: "library \<Rightarrow> string list \<Rightarrow> json list" where
  "expected_fragments lib lines =
     filter truthy
       (map (\<lambda>kvs. dict_get kvs ''response'' (JStr [])) (List.map_filter (record_of lib) lines))"

text \<open>
  The lines the loop gets past: those that decode and are blank, or are rejected by
  \<open>json.loads\<close>, or parse to an object.
\<close>

definition passable :: "library \<Rightarrow> string \<Rightarrow> bool" where
  "passable lib raw =
     (case decode_utf8 lib raw of
        Inl m \<Rightarrow> False
      | Inr line \<Rightarrow>
          strip line = []
          \<or> (case json_loads lib (strip line) of
                Inl m \<Rightarrow> True
              | Inr (JObj kvs) \<Rightarrow> True
              | Inr data \<Rightarrow> False))"

section \<open>routers/generate.py\<close>

subsection \<open>Link rewriting\<close>

text \<open>
  The pattern \<open>click ([^\s"]+)\s+"([^"]+)"\<close> tried at the start of a text.
  Each of the three repetitions is followed by something its own class excludes
  (whitespace, the double quote, the double quote), so a shorter repetition can never be
  completed to a match and the greedy choice is the only one: the match is computed
  without backtracking. The result is group 1, group 2 and the text after the match.
\<close>

definition ident_char :: "char \<Rightarrow> bool" where
  "ident_char c = (\<not> is_space c \<and> c \<noteq> dq)"

definition match_click :: "string \<Rightarrow> (string \<times> string \<times> string) option" where
  "match_click s =
     (if \<not> prefix ''click '' s then None
      else
        let after_click = drop 6 s;
            group1 = takeWhile ident_char after_click;
            after_group1 = dropWhile ident_char after_click;
            spaces = takeWhile is_space after_group1;
            after_spaces = dropWhile is_space after_group1
        in if group1 = [] \<or> spaces = [] then None
           else (case after_spaces of
                   [] \<Rightarrow> None
                 | q # after_quote \<Rightarrow>
                     if q \<noteq> dq then None
                     else
                       let group2 = takeWhile (\<lambda>c. c \<noteq> dq) after_quote;
                           after_group2 = dropWhile (\<lambda>c. c \<noteq> dq) after_quote
                       in if group2 = [] then None
                          else (case after_group2 of
                                  [] \<Rightarrow> None
                                | q2 # rest \<Rightarrow> Some (group1, group2, rest))))"

text \<open>
  \<open>re.sub(click_pattern, repl, diagram)\<close> with a function \<open>repl\<close> of the two groups:
  the leftmost match is replaced and the scan goes on after it; where no match starts,
  the character is copied.
\<close>

function re_sub_click :: "(string \<Rightarrow> string \<Rightarrow> string) \<Rightarrow> string \<Rightarrow> string" where
  "re_sub_click repl [] = []"
| "re_sub_click repl (c # cs) =
     (case match_click (c # cs) of
        Some (group1, group2, rest) \<Rightarrow> repl group1 group2 @ re_sub_click repl rest
      | None \<Rightarrow> c # re_sub_click repl cs)"
  by pat_completeness auto
termination
proof (relation "measure (\<lambda>(repl, s). length s)", goal_cases)
  case 1
  show ?case by simp
next
  case (2 repl c cs)
  show ?case by simp
next
  case (3 repl c cs m group1 y group2 rest)
  then obtain q aq q2 where
    a: "dropWhile is_space (dropWhile ident_char (drop 6 (c # cs))) = q # aq" and
    b: "dropWhile (\<lambda>c. c \<noteq> dq) aq = q2 # rest"
    unfolding match_click_def Let_def by (auto split: if_splits list.splits)
  have "length rest < length (dropWhile (\<lambda>c. c \<noteq> dq) aq)"
    using b by simp
  also have "\<dots> \<le> length aq"
    by (rule length_dropWhile_le)
  also have "\<dots> \<le> length (dropWhile is_space (dropWhile ident_char (drop 6 (c # cs))))"
    using a by simp
  also have "\<dots> \<le> length (dropWhile ident_char (drop 6 (c # cs)))"
    by (rule length_dropWhile_le)
  also have "\<dots> \<le> length (drop 6 (c # cs))"
    by (rule length_dropWhile_le)
  also have "\<dots> \<le> length (c # cs)"
    by simp
  finally show ?case by simp
qed

text \<open>
  The strings the pattern matches, with their two groups, stated without the matcher:
  the word \<open>click\<close> and a space, a non-empty run of characters that are neither whitespace
  nor the double quote, a non-empty run of whitespace, and a non-empty run of characters
  other than the double quote between two double quotes.
\<close>

definition is_click_match :: "string \<Rightarrow> string \<Rightarrow> string \<Rightarrow> bool" where
  "is_click_match m group1 group2 \<longleftrightarrow>
     (\<exists>spaces.
        m = ''click '' @ group1 @ spaces @ quoted group2
        \<and> group1 \<noteq> [] \<and> (\<forall>c \<in> set group1. \<not> is_space c \<and> c \<noteq> dq)
        \<and> spaces \<noteq> [] \<and> (\<forall>c \<in> set spaces. is_space c)
        \<and> group2 \<noteq> [] \<and> dq \<notin> set group2)"

text \<open>
  Whether the pattern matches somewhere in a text (\<open>re.search\<close>), and whether no match
  starts inside the first part of a text.
\<close>

fun has_match :: "string \<Rightarrow> bool" where
  "has_match [] = False"
| "has_match (c # cs) = (match_click (c # cs) \<noteq> None \<or> has_match cs)"

fun starts_no_match :: "string \<Rightarrow> string \<Rightarrow> bool" where
  "starts_no_match [] rest = True"
| "starts_no_match (c # cs) rest =
     (match_click (c # cs @ rest) = None \<and> starts_no_match cs rest)"

text \<open>The inner function \<open>replace_path\<close> (lines 83-96), closed over the three arguments.\<close>

definition replace_path :: "string \<Rightarrow> string \<Rightarrow> string \<Rightarrow> string \<Rightarrow> string \<Rightarrow> string" where
  "replace_path username repo branch group1 group2 =
     (let path = strip_chars [dq, sq] group2;
          is_file = (CHR ''.'' \<in> set (last (split_on CHR ''/'' path)));
          base_url = ''https://github.com/'' @ username @ ''/'' @ repo;
          path_type = (if is_file then ''blob'' else ''tree'');
          full_url = base_url @ ''/'' @ path_type @ ''/'' @ branch @ ''/'' @ path
      in ''click '' @ group1 @ '' '' @ quoted full_url)"

definition process_click_events :: "string \<Rightarrow> string \<Rightarrow> string \<Rightarrow> string \<Rightarrow> string" where
  "process_click_events diagram username repo branch =
     re_sub_click (replace_path username repo branch) diagram"

subsection \<open>Repository data\<close>

record ApiRequest =
  username :: string
  repo :: string
  instructions :: string
  api_key :: "string option"
  github_pat :: "string option"

text \<open>
  \<open>GitHubService\<close> is not among the sources: its three methods are parameters, each
  returning its value or the exception it raises.
\<close>

record GitHubService =
  get_default_branch :: "string \<Rightarrow> string \<Rightarrow> exn + string option"
  get_github_file_paths_as_list :: "string \<Rightarrow> string \<Rightarrow> exn + string"
  get_github_readme :: "string \<Rightarrow> string \<Rightarrow> exn + string"

record github_data =
  default_branch :: string
  file_tree :: string
  readme :: string

text \<open>
  What the module imports or builds at load time: the four prompts of \<open>app.prompts\<close>,
  the constructor \<open>GitHubService(pat=...)\<close>, and \<open>llm_service.call_o3_api_stream\<close> seen
  from its caller, which gives the fragments the generator yields and the exception that
  ends it, if one does. Fragments are \<open>str\<close>, as the method is annotated.
\<close>

record environment =
  SYSTEM_FIRST_PROMPT :: string
  SYSTEM_SECOND_PROMPT :: string
  SYSTEM_THIRD_PROMPT :: string
  ADDITIONAL_SYSTEM_INSTRUCTIONS_PROMPT :: string
  new_GitHubService :: "string option \<Rightarrow> GitHubService"
  llm_service :: "string \<Rightarrow> (string \<times> string) list \<Rightarrow> string option \<Rightarrow> string
                    \<Rightarrow> string list \<times> exn option"

text \<open>
  \<open>get_cached_github_data\<close> (lines 34-46). The \<open>lru_cache\<close> around it only saves calls
  and is left out.
\<close>

definition get_cached_github_data ::
  "environment \<Rightarrow> string \<Rightarrow> string \<Rightarrow> string option \<Rightarrow> exn + github_data" where
  "get_cached_github_data env user repo_name pat =
     (let current_github_service = new_GitHubService env pat
      in case get_default_branch current_github_service user repo_name of
           Inl e \<Rightarrow> Inl e
         | Inr found_branch \<Rightarrow>
             (let branch = (case found_branch of
                              None \<Rightarrow> ''main''
                            | Some b \<Rightarrow> if b = [] then ''main'' else b)
              in case get_github_file_paths_as_list current_github_service user repo_name of
                   Inl e \<Rightarrow> Inl e
                 | Inr tree \<Rightarrow>
                     (case get_github_readme current_github_service user repo_name of
                        Inl e \<Rightarrow> Inl e
                      | Inr text \<Rightarrow>
                          Inr \<lparr>default_branch = branch, file_tree = tree, readme = text\<rparr>)))"

subsection \<open>The event stream\<close>

text \<open>
  An event is the dict handed to \<open>json.dumps\<close>; on the wire it is the line
  \<open>data: <json>\<close> followed by an empty line.
\<close>

type_synonym event = "(string \<times> string) list"

definition started_event :: event where
  "started_event = [(''status'', ''started''), (''message'', ''Starting generation process...'')]"

definition explanation_sent_event :: event where
  "explanation_sent_event =
     [(''status'', ''explanation_sent''), (''message'', ''Analyzing repository structure...'')]"

definition mapping_event :: event where
  "mapping_event = [(''status'', ''mapping''), (''message'', ''Creating component mapping...'')]"

definition diagram_event :: event where
  "diagram_event = [(''status'', ''diagram''), (''message'', ''Generating diagram...'')]"

definition chunk_event :: "string \<Rightarrow> string \<Rightarrow> event" where
  "chunk_event status chunk = [(''status'', status), (''chunk'', chunk)]"

definition complete_event :: "string \<Rightarrow> event" where
  "complete_event mermaid_code = [(''status'', ''complete''), (''diagram'', mermaid_code)]"

text \<open>Line 206: the record the exception handler sends.\<close>

definition error_event :: "string \<Rightarrow> event" where
  "error_event message = [(''error'', message)]"

text \<open>Line 165: the record sent when the explanation holds the sentinel.\<close>

definition bad_instructions_event :: event where
  "bad_instructions_event = [(''error'', ''Invalid or unclear instructions provided'')]"

text \<open>Lines 134-146: the prompts of phases 1 and 3 get the suffix when instructions are given.\<close>

definition first_system_prompt :: "environment \<Rightarrow> ApiRequest \<Rightarrow> string" where
  "first_system_prompt env body =
     (if instructions body \<noteq> []
      then SYSTEM_FIRST_PROMPT env @ [CHR 0x0A] @ ADDITIONAL_SYSTEM_INSTRUCTIONS_PROMPT env
      else SYSTEM_FIRST_PROMPT env)"

definition third_system_prompt :: "environment \<Rightarrow> ApiRequest \<Rightarrow> string" where
  "third_system_prompt env body =
     (if instructions body \<noteq> []
      then SYSTEM_THIRD_PROMPT env @ [CHR 0x0A] @ ADDITIONAL_SYSTEM_INSTRUCTIONS_PROMPT env
      else SYSTEM_THIRD_PROMPT env)"

text \<open>The three calls of \<open>llm_service.call_o3_api_stream\<close> (lines 151-160, 171-176, 183-192).\<close>

definition explanation_stream ::
  "environment \<Rightarrow> ApiRequest \<Rightarrow> github_data \<Rightarrow> string list \<times> exn option" where
  "explanation_stream env body github_data =
     llm_service env (first_system_prompt env body)
       [(''file_tree'', file_tree github_data),
        (''readme'', readme github_data),
        (''instructions'', instructions body)]
       (api_key body) ''medium''"

definition mapping_stream ::
  "environment \<Rightarrow> ApiRequest \<Rightarrow> github_data \<Rightarrow> string \<Rightarrow> string list \<times> exn option" where
  "mapping_stream env body github_data explanation =
     llm_service env (SYSTEM_SECOND_PROMPT env)
       [(''explanation'', explanation), (''file_tree'', file_tree github_data)]
       (api_key body) ''medium''"

definition diagram_stream ::
  "environment \<Rightarrow> ApiRequest \<Rightarrow> string \<Rightarrow> string \<Rightarrow> string list \<times> exn option" where
  "diagram_stream env body explanation full_second_response =
     llm_service env (third_system_prompt env body)
       [(''explanation'', explanation),
        (''component_mapping'', full_second_response),
        (''instructions'', instructions body)]
       (api_key body) ''medium''"

text \<open>
  \<open>event_generator\<close> (lines 119-206), read to its end: the list of the events it yields.
  Every exception raised inside the \<open>try\<close> ends the list with the record of line 206.
\<close>

definition event_generator :: "environment \<Rightarrow> ApiRequest \<Rightarrow> event list" where
  "event_generator env body =
     (case get_cached_github_data env (username body) (repo body) (github_pat body) of
        Inl e \<Rightarrow> [error_event (str_exn e)]
      | Inr github_data \<Rightarrow>
          started_event # explanation_sent_event #
          (case explanation_stream env body github_data of
             (chunks1, raised1) \<Rightarrow>
               map (chunk_event ''explanation_chunk'') chunks1 @
               (case raised1 of
                  Some e \<Rightarrow> [error_event (str_exn e)]
                | None \<Rightarrow>
                    (let explanation = concat chunks1
                     in if contains ''BAD_INSTRUCTIONS'' explanation
                        then [bad_instructions_event]
                        else
                          mapping_event #
                          (case mapping_stream env body github_data explanation of
                             (chunks2, raised2) \<Rightarrow>
                               map (chunk_event ''mapping_chunk'') chunks2 @
                               (case raised2 of
                                  Some e \<Rightarrow> [error_event (str_exn e)]
                                | None \<Rightarrow>
                                    (let full_second_response = concat chunks2
                                     in diagram_event #
                                        (case diagram_stream env body explanation
                                                full_second_response of
                                           (chunks3, raised3) \<Rightarrow>
                                             map (chunk_event ''diagram_chunk'') chunks3 @
                                             (case raised3 of
                                                Some e \<Rightarrow> [error_event (str_exn e)]
                                              | None \<Rightarrow>
                                                  [complete_event
                                                     (process_click_events (concat chunks3)
                                                        (username body) (repo body)
                                                        (default_branch github_data))])))))))))"

subsection \<open>The endpoint\<close>

text \<open>
  \<open>generate_stream\<close> (lines 104-212) answers with a JSON body, or with a streaming
  response that carries the events of \<open>event_generator\<close>.
\<close>

datatype reply =
    JsonReply "(string \<times> string) list"
  | StreamingResponse "event list"

definition reserved_repos :: "string list" where
  "reserved_repos = [''fastapi'', ''streamlit'', ''flask'', ''api-analytics'', ''monkeytype'']"

definition generate_stream :: "environment \<Rightarrow> ApiRequest \<Rightarrow> reply" where
  "generate_stream env body =
     (if length (instructions body) > 1000
      then JsonReply [(''error'', ''Instructions exceed maximum length of 1000 characters'')]
      else if repo body \<in> set reserved_repos
      then JsonReply [(''error'', ''Example repos cannot be regenerated'')]
      else StreamingResponse (event_generator env body))"

definition events_of :: "reply \<Rightarrow> event list" where
  "events_of r = (case r of JsonReply d \<Rightarrow> [] | StreamingResponse evs \<Rightarrow> evs)"

text \<open>
  How a consumer reads a record: by its \<open>status\<close> field, and as the last one of the
  stream when it has an \<open>error\<close> field or the status \<open>complete\<close>.
\<close>

definition status_of :: "event \<Rightarrow> string option" where
  "status_of ev = map_of ev ''status''"

definition is_terminal :: "event \<Rightarrow> bool" where
  "is_terminal ev = (map_of ev ''error'' \<noteq> None \<or> map_of ev ''status'' = Some ''complete'')"

text \<open>
  The ways a stream that has started can go on: each phase opens with its own record,
  sends its chunks, and the stream is closed by one error record or, after the third
  phase, by the record of the finished diagram.
\<close>

definition after_started :: "event list \<Rightarrow> bool" where
  "after_started evs \<longleftrightarrow>
     (\<exists>fs1 rest1.
        evs = [started_event, explanation_sent_event]
              @ map (chunk_event ''explanation_chunk'') fs1 @ rest1
        \<and> ((\<exists>m. rest1 = [error_event m])
           \<or> (\<exists>fs2 rest2.
                 rest1 = [mapping_event] @ map (chunk_event ''mapping_chunk'') fs2 @ rest2
                 \<and> ((\<exists>m. rest2 = [error_event m])
                    \<or> (\<exists>fs3 m. rest2 = [diagram_event]
                                   @ map (chunk_event ''diagram_chunk'') fs3 @ [error_event m])
                    \<or> (\<exists>fs3 d. rest2 = [diagram_event]
                                   @ map (chunk_event ''diagram_chunk'') fs3
                                   @ [complete_event d])))))"

section \<open>Sample inputs\<close>

text \<open>A repository service that answers, and one whose first call raises.\<close>

definition sample_github :: GitHubService where
  "sample_github =
     \<lparr>get_default_branch = (\<lambda>user repo_name. Inr (Some ''main'')),
      get_github_file_paths_as_list = (\<lambda>user repo_name. Inr ''src/app.py''),
      get_github_readme = (\<lambda>user repo_name. Inr ''A sample project'')\<rparr>"

definition failing_github :: GitHubService where
  "failing_github =
     \<lparr>get_default_branch = (\<lambda>user repo_name. Inl (OtherException ''Repository not found'')),
      get_github_file_paths_as_list = (\<lambda>user repo_name. Inr ''src/app.py''),
      get_github_readme = (\<lambda>user repo_name. Inr ''A sample project'')\<rparr>"

text \<open>An engine stub that plays one fixed outcome per phase, told apart by the system prompt.\<close>

definition sample_environment ::
  "GitHubService \<Rightarrow> string list \<times> exn option \<Rightarrow> string list \<times> exn option
     \<Rightarrow> string list \<times> exn option \<Rightarrow> environment" where
  "sample_environment service phase1 phase2 phase3 =
     \<lparr>SYSTEM_FIRST_PROMPT = ''explain'',
      SYSTEM_SECOND_PROMPT = ''map'',
      SYSTEM_THIRD_PROMPT = ''draw'',
      ADDITIONAL_SYSTEM_INSTRUCTIONS_PROMPT = ''follow the instructions'',
      new_GitHubService = (\<lambda>pat. service),
      llm_service = (\<lambda>system_prompt data key effort.
                       if system_prompt = ''explain'' then phase1
                       else if system_prompt = ''map'' then phase2
                       else phase3)\<rparr>"

definition sample_request :: ApiRequest where
  "sample_request =
     \<lparr>username = ''octocat'', repo = ''hello-world'', instructions = [],
      api_key = None, github_pat = None\<rparr>"

text \<open>
  A library in which the transport lines are ASCII, so that decoding leaves them as they
  are, and \<open>json.loads\<close> is given on the three lines the examples use:
  \<open>null\<close>, \<open>{"response": "hi"}\<close> and \<open>{"response": ""}\<close>; it rejects the others.
\<close>

definition hi_line :: string where
  "hi_line = ''{'' @ quoted ''response'' @ '': '' @ quoted ''hi'' @ ''}''"

definition empty_line :: string where
  "empty_line = ''{'' @ quoted ''response'' @ '': '' @ quoted [] @ ''}''"

definition sample_library :: library where
  "sample_library =
     \<lparr>decode_utf8 = Inr,
      json_loads = (\<lambda>line.
        case map_of
               [(''null'', JNull),
                (hi_line, JObj [(''response'', JStr ''hi'')]),
                (empty_line, JObj [(''response'', JStr [])])] line of
          None \<Rightarrow> Inl ''Expecting value: line 1 column 1 (char 0)''
        | Some data \<Rightarrow> Inr data),
      format_user_message = (\<lambda>data. concat (map snd data))\<rparr>"

text \<open>The service as \<open>__init__\<close> builds it when the environment sets nothing.\<close>

definition sample_service :: OllamaService where
  "sample_service = \<lparr>base_url = ''http://localhost:11434'', model = ''deepseek-r1''\<rparr>"

text \<open>A backend that answers every request with status 200 and the given lines.\<close>

definition answering :: "string list \<Rightarrow> string \<Rightarrow> generate_payload \<Rightarrow> http_outcome" where
  "answering lines url payload = HttpResponse 200 [] lines"

text \<open>What \<open>sample_github\<close> makes \<open>get_cached_github_data\<close> return.\<close>

definition sample_data :: github_data where
  "sample_data = \<lparr>default_branch = ''main'', file_tree = ''src/app.py'', readme = ''A sample project''\<rparr>"

text \<open>Phase 1 answers, phase 2 loses its connection after one fragment.\<close>

definition phase2_failure_environment :: environment where
  "phase2_failure_environment =
     sample_environment sample_github
       ([''The repository '', ''is a web app.''], None)
       ([''frontend: ''], Some (ValueError ''Failed to connect to Ollama API: reset''))
       ([], None)"

text \<open>
  Phase 1 sends the sentinel, split over two fragments, and ends; and the same with the
  connection lost after the second fragment.
\<close>

definition sentinel_environment :: environment where
  "sentinel_environment =
     sample_environment sample_github
       ([''Sorry: BAD_'', ''INSTRUCTIONS''], None) ([''unused''], None) ([''unused''], None)"

definition sentinel_then_raise_environment :: environment where
  "sentinel_then_raise_environment =
     sample_environment sample_github
       ([''Sorry: BAD_'', ''INSTRUCTIONS''],
        Some (ValueError ''Failed to connect to Ollama API: reset''))
       ([''unused''], None) ([''unused''], None)"

section \<open>Generation Engine: reasoning effort\<close>

text \<open>
  C9. In the single-shot and in the streaming operation the reasoning-effort argument
  sets the temperature sent to the backend by the table low to 0.1, medium to 0.5,
  high to 0.9, and every other value gives 0.1. This is stated on the body each
  operation posts: a backend that answers with what it reads in the temperature field
  reads the value of the table, and each operation gives the same result when the
  backend is cut off from every body with another temperature.
\<close>

theorem effort_temperature_table:
  "(let t = (if effort = ''low'' then 1 / 10
             else if effort = ''medium'' then 1 / 2
             else if effort = ''high'' then 9 / 10
             else 1 / 10)
    in call_o3_api lib self (\<lambda>url p. ClientError (probe (payload_temperature p)))
           sp data key effort
         = Inl (OtherException (probe t))
       \<and> call_o3_api lib self post sp data key effort
         = call_o3_api lib self
             (\<lambda>url p. if payload_temperature p = t then post url p else ClientError [])
             sp data key effort
       \<and> call_o3_api_stream lib self (\<lambda>url p. ClientError (probe (payload_temperature p)))
           sp data key effort
         = ([], Some (ValueError (''Failed to connect to Ollama API: '' @ probe t)))
       \<and> call_o3_api_stream lib self post sp data key effort
         = call_o3_api_stream lib self
             (\<lambda>url p. if payload_temperature p = t then post url p else ClientError [])
             sp data key effort
       \<and> payload_temperature (call_o3_api_payload lib self sp data effort) = t
       \<and> payload_temperature (call_o3_api_stream_payload lib self sp data effort) = t)"
  by (simp add: Let_def call_o3_api_def call_o3_api_stream_def
      call_o3_api_payload_def call_o3_api_stream_payload_def temperature_table_def dict_get_def)

theorem effort_temperature_table_witness:
  "call_o3_api sample_library sample_service
     (\<lambda>url p. ClientError (if payload_temperature p = 1 / 2 then ''0.5'' else ''other''))
     ''system'' [] None ''medium''
     = Inl (OtherException ''0.5'')
   \<and> call_o3_api_stream sample_library sample_service
     (\<lambda>url p. ClientError (if payload_temperature p = 9 / 10 then ''0.9'' else ''other''))
     ''system'' [] None ''high''
     = ([], Some (ValueError ''Failed to connect to Ollama API: 0.9''))
   \<and> call_o3_api_stream sample_library sample_service
     (\<lambda>url p. ClientError (if payload_temperature p = 1 / 10 then ''0.1'' else ''other''))
     ''system'' [] None ''extreme''
     = ([], Some (ValueError ''Failed to connect to Ollama API: 0.1''))"
  using effort_temperature_table [of "''medium''" sample_library sample_service
          "\<lambda>q. if q = 1 / 2 then ''0.5'' else ''other''" "''system''" "[]" None]
        effort_temperature_table [of "''high''" sample_library sample_service
          "\<lambda>q. if q = 9 / 10 then ''0.9'' else ''other''" "''system''" "[]" None]
        effort_temperature_table [of "''extreme''" sample_library sample_service
          "\<lambda>q. if q = 1 / 10 then ''0.1'' else ''other''" "''system''" "[]" None]
  by (simp add: Let_def)

section \<open>Generation Engine: reading the stream\<close>

text \<open>
  On lines that decode and are blank, rejected by \<open>json.loads\<close> or objects, the loop does
  what is described: it never raises, and it yields the non-empty contents of the
  records in order. Whatever the lines are, every fragment it yields is non-empty.
\<close>

lemma read_lines_passable:
  assumes "\<forall>raw \<in> set lines. passable lib raw"
  shows "read_lines lib lines = (expected_fragments lib lines, None)"
  using assms
proof (induction lines)
  case Nil
  show ?case
    by (simp add: expected_fragments_def)
next
  case (Cons raw rest)
  then have ih: "read_lines lib rest = (expected_fragments lib rest, None)"
    by simp
  from Cons.prems have p: "passable lib raw"
    by simp
  then obtain line where d: "decode_utf8 lib raw = Inr line"
    by (auto simp: passable_def split: sum.splits)
  show ?case
  proof (cases "strip line = []")
    case True
    then show ?thesis
      using d ih by (simp add: expected_fragments_def record_of_def)
  next
    case False
    note nonblank = this
    show ?thesis
    proof (cases "json_loads lib (strip line)")
      case (Inl m)
      then show ?thesis
        using d ih nonblank
        by (simp add: expected_fragments_def record_of_def)
    next
      case (Inr data)
      with p d nonblank obtain kvs where data: "data = JObj kvs"
        by (cases data) (auto simp: passable_def)
      show ?thesis
        using d ih nonblank Inr data
        by (simp add: expected_fragments_def record_of_def Let_def)
    qed
  qed
qed

lemma read_lines_fragments_truthy:
  "\<forall>fragment \<in> set (fst (read_lines lib lines)). truthy fragment"
proof (induction lines)
  case Nil
  show ?case by simp
next
  case (Cons raw rest)
  show ?case
    using Cons.IH
    by (auto simp: Let_def split: sum.splits json.splits prod.splits)
qed

text \<open>
  C8. Each transport line is parsed on its own; a line that is not a well-formed record
  is skipped without an error and without ending the stream, an empty line and a
  record with empty content yield nothing, so the fragments are the non-empty contents
  of the well-formed lines in order. The code does not do this for a line that is valid
  JSON but not an object: the line \<open>null\<close> followed by the record \<open>{"response": "hi"}\<close>
  ends the stream with an \<open>AttributeError\<close> and no fragment, where the fragment \<open>hi\<close> is
  expected; with a line that \<open>json.loads\<close> rejects in its place the fragment is yielded.
\<close>

theorem non_object_line_ends_stream:
  "call_o3_api_stream sample_library sample_service
     (answering [''null'' @ [CHR 0x0A], hi_line @ [CHR 0x0A]]) ''system'' [] None ''medium''
     = ([], Some (AttributeError
                    ([sq] @ ''NoneType'' @ [sq] @ '' object has no attribute '' @ [sq] @ ''get'' @ [sq])))
   \<and> expected_fragments sample_library [''null'' @ [CHR 0x0A], hi_line @ [CHR 0x0A]] = [JStr ''hi'']
   \<and> call_o3_api_stream sample_library sample_service
     (answering [''not json'' @ [CHR 0x0A], hi_line @ [CHR 0x0A]]) ''system'' [] None ''medium''
     = ([JStr ''hi''], None)"
  by code_simp

section \<open>The event generator, outcome by outcome\<close>

lemma event_generator_github_error:
  assumes "get_cached_github_data env (username body) (repo body) (github_pat body) = Inl e"
  shows "event_generator env body = [error_event (str_exn e)]"
  using assms by (simp add: event_generator_def)

lemma event_generator_phase1_error:
  assumes "get_cached_github_data env (username body) (repo body) (github_pat body) = Inr gd"
      and "explanation_stream env body gd = (fs1, Some e)"
  shows "event_generator env body =
           started_event # explanation_sent_event #
           map (chunk_event ''explanation_chunk'') fs1 @ [error_event (str_exn e)]"
  using assms by (simp add: event_generator_def)

lemma event_generator_bad_instructions:
  assumes "get_cached_github_data env (username body) (repo body) (github_pat body) = Inr gd"
      and "explanation_stream env body gd = (fs1, None)"
      and "contains ''BAD_INSTRUCTIONS'' (concat fs1)"
  shows "event_generator env body =
           started_event # explanation_sent_event #
           map (chunk_event ''explanation_chunk'') fs1 @ [bad_instructions_event]"
  using assms by (simp add: event_generator_def)

lemma event_generator_phase2_error:
  assumes "get_cached_github_data env (username body) (repo body) (github_pat body) = Inr gd"
      and "explanation_stream env body gd = (fs1, None)"
      and "\<not> contains ''BAD_INSTRUCTIONS'' (concat fs1)"
      and "mapping_stream env body gd (concat fs1) = (fs2, Some e)"
  shows "event_generator env body =
           started_event # explanation_sent_event #
           map (chunk_event ''explanation_chunk'') fs1 @
           mapping_event # map (chunk_event ''mapping_chunk'') fs2 @ [error_event (str_exn e)]"
  using assms by (simp add: event_generator_def)

lemma event_generator_phase3_error:
  assumes "get_cached_github_data env (username body) (repo body) (github_pat body) = Inr gd"
      and "explanation_stream env body gd = (fs1, None)"
      and "\<not> contains ''BAD_INSTRUCTIONS'' (concat fs1)"
      and "mapping_stream env body gd (concat fs1) = (fs2, None)"
      and "diagram_stream env body (concat fs1) (concat fs2) = (fs3, Some e)"
  shows "event_generator env body =
           started_event # explanation_sent_event #
           map (chunk_event ''explanation_chunk'') fs1 @
           mapping_event # map (chunk_event ''mapping_chunk'') fs2 @
           diagram_event # map (chunk_event ''diagram_chunk'') fs3 @ [error_event (str_exn e)]"
  using assms by (simp add: event_generator_def)

lemma event_generator_complete:
  assumes "get_cached_github_data env (username body) (repo body) (github_pat body) = Inr gd"
      and "explanation_stream env body gd = (fs1, None)"
      and "\<not> contains ''BAD_INSTRUCTIONS'' (concat fs1)"
      and "mapping_stream env body gd (concat fs1) = (fs2, None)"
      and "diagram_stream env body (concat fs1) (concat fs2) = (fs3, None)"
  shows "event_generator env body =
           started_event # explanation_sent_event #
           map (chunk_event ''explanation_chunk'') fs1 @
           mapping_event # map (chunk_event ''mapping_chunk'') fs2 @
           diagram_event # map (chunk_event ''diagram_chunk'') fs3 @
           [complete_event (process_click_events (concat fs3) (username body) (repo body)
                              (default_branch gd))]"
  using assms by (simp add: event_generator_def)

lemma generate_stream_valid:
  assumes "length (instructions body) \<le> 1000" and "repo body \<notin> set reserved_repos"
  shows "generate_stream env body = StreamingResponse (event_generator env body)"
  using assms by (simp add: generate_stream_def)

lemma sample_github_data:
  "get_cached_github_data (sample_environment sample_github p1 p2 p3)
     (username sample_request) (repo sample_request) (github_pat sample_request) = Inr sample_data"
  by (simp add: get_cached_github_data_def sample_environment_def sample_github_def sample_data_def)

lemma sample_explanation_stream:
  "explanation_stream (sample_environment service p1 p2 p3) sample_request gd = p1"
  by (simp add: explanation_stream_def first_system_prompt_def sample_environment_def
      sample_request_def)

lemma sample_mapping_stream:
  "mapping_stream (sample_environment service p1 p2 p3) sample_request gd explanation = p2"
  by (simp add: mapping_stream_def sample_environment_def)

lemma sample_diagram_stream:
  "diagram_stream (sample_environment service p1 p2 p3) sample_request explanation mapping = p3"
  by (simp add: diagram_stream_def third_system_prompt_def sample_environment_def
      sample_request_def)

lemma sample_request_valid:
  "length (instructions sample_request) \<le> 1000" "repo sample_request \<notin> set reserved_repos"
  by (simp_all add: sample_request_def reserved_repos_def)

lemma status_of_events [simp]:
  "status_of started_event = Some ''started''"
  "status_of explanation_sent_event = Some ''explanation_sent''"
  "status_of mapping_event = Some ''mapping''"
  "status_of diagram_event = Some ''diagram''"
  "status_of (chunk_event s c) = Some s"
  "status_of (complete_event d) = Some ''complete''"
  "status_of (error_event m) = None"
  "status_of bad_instructions_event = None"
  by (simp_all add: status_of_def started_event_def explanation_sent_event_def mapping_event_def
      diagram_event_def chunk_event_def complete_event_def error_event_def
      bad_instructions_event_def)

lemma is_terminal_events [simp]:
  "\<not> is_terminal started_event"
  "\<not> is_terminal explanation_sent_event"
  "\<not> is_terminal mapping_event"
  "\<not> is_terminal diagram_event"
  "\<not> is_terminal (chunk_event ''explanation_chunk'' c)"
  "\<not> is_terminal (chunk_event ''mapping_chunk'' c)"
  "\<not> is_terminal (chunk_event ''diagram_chunk'' c)"
  "is_terminal (complete_event d)"
  "is_terminal (error_event m)"
  "is_terminal bad_instructions_event"
  by (simp_all add: is_terminal_def started_event_def explanation_sent_event_def mapping_event_def
      diagram_event_def chunk_event_def complete_event_def error_event_def
      bad_instructions_event_def)

lemma started_event_neq [simp]:
  "explanation_sent_event \<noteq> started_event"
  "mapping_event \<noteq> started_event"
  "diagram_event \<noteq> started_event"
  "chunk_event s c \<noteq> started_event"
  "complete_event d \<noteq> started_event"
  "error_event m \<noteq> started_event"
  by (simp_all add: started_event_def explanation_sent_event_def mapping_event_def
      diagram_event_def chunk_event_def complete_event_def error_event_def)

lemma count_list_chunks [simp]:
  "count_list (map (chunk_event s) fs) started_event = 0"
  by (induction fs) simp_all

lemma count_list_append:
  "count_list (xs @ ys) x = count_list xs x + count_list ys x"
  by (induction xs) simp_all

lemma closed_stream_facts:
  assumes evs: "evs = started_event # front @ [t]" and t: "is_terminal t"
      and front: "\<forall>ev \<in> set front. \<not> is_terminal ev \<and> ev \<noteq> started_event"
  shows "hd evs = started_event \<and> count_list evs started_event = 1
         \<and> evs \<noteq> [] \<and> is_terminal (last evs) \<and> (\<forall>ev \<in> set (butlast evs). \<not> is_terminal ev)"
proof -
  have "count_list front started_event = 0"
    using front by (induction front) auto
  moreover have "t \<noteq> started_event"
    using t by auto
  moreover have "butlast evs = started_event # front"
    unfolding evs by (simp add: butlast_append)
  ultimately show ?thesis
    using evs t front by (auto simp: count_list_append)
qed

lemma after_started_facts:
  assumes "after_started evs"
  shows "hd evs = started_event \<and> count_list evs started_event = 1
         \<and> evs \<noteq> [] \<and> is_terminal (last evs) \<and> (\<forall>ev \<in> set (butlast evs). \<not> is_terminal ev)"
proof -
  from assms consider
    (phase1) fs1 m where
      "evs = [started_event, explanation_sent_event]
             @ map (chunk_event ''explanation_chunk'') fs1 @ [error_event m]"
  | (phase2) fs1 fs2 m where
      "evs = [started_event, explanation_sent_event]
             @ map (chunk_event ''explanation_chunk'') fs1
             @ [mapping_event] @ map (chunk_event ''mapping_chunk'') fs2 @ [error_event m]"
  | (phase3) fs1 fs2 fs3 m where
      "evs = [started_event, explanation_sent_event]
             @ map (chunk_event ''explanation_chunk'') fs1
             @ [mapping_event] @ map (chunk_event ''mapping_chunk'') fs2
             @ [diagram_event] @ map (chunk_event ''diagram_chunk'') fs3 @ [error_event m]"
  | (complete) fs1 fs2 fs3 d where
      "evs = [started_event, explanation_sent_event]
             @ map (chunk_event ''explanation_chunk'') fs1
             @ [mapping_event] @ map (chunk_event ''mapping_chunk'') fs2
             @ [diagram_event] @ map (chunk_event ''diagram_chunk'') fs3 @ [complete_event d]"
    unfolding after_started_def by blast
  then show ?thesis
  proof cases
    case phase1
    show ?thesis
      by (rule closed_stream_facts
          [where front = "explanation_sent_event # map (chunk_event ''explanation_chunk'') fs1"
             and t = "error_event m"])
        (auto simp: phase1)
  next
    case phase2
    show ?thesis
      by (rule closed_stream_facts
          [where front = "explanation_sent_event # map (chunk_event ''explanation_chunk'') fs1
                          @ mapping_event # map (chunk_event ''mapping_chunk'') fs2"
             and t = "error_event m"])
        (auto simp: phase2)
  next
    case phase3
    show ?thesis
      by (rule closed_stream_facts
          [where front = "explanation_sent_event # map (chunk_event ''explanation_chunk'') fs1
                          @ mapping_event # map (chunk_event ''mapping_chunk'') fs2
                          @ diagram_event # map (chunk_event ''diagram_chunk'') fs3"
             and t = "error_event m"])
        (auto simp: phase3)
  next
    case complete
    show ?thesis
      by (rule closed_stream_facts
          [where front = "explanation_sent_event # map (chunk_event ''explanation_chunk'') fs1
                          @ mapping_event # map (chunk_event ''mapping_chunk'') fs2
                          @ diagram_event # map (chunk_event ''diagram_chunk'') fs3"
             and t = "complete_event d"])
        (auto simp: complete)
  qed
qed

lemma event_generator_after_started:
  assumes "get_cached_github_data env (username body) (repo body) (github_pat body) = Inr gd"
  shows "after_started (event_generator env body)"
proof -
  obtain fs1 r1 where p1: "explanation_stream env body gd = (fs1, r1)"
    by (cases "explanation_stream env body gd")
  obtain fs2 r2 where p2: "mapping_stream env body gd (concat fs1) = (fs2, r2)"
    by (cases "mapping_stream env body gd (concat fs1)")
  obtain fs3 r3 where p3: "diagram_stream env body (concat fs1) (concat fs2) = (fs3, r3)"
    by (cases "diagram_stream env body (concat fs1) (concat fs2)")
  show ?thesis
  proof (cases r1)
    case (Some e)
    then show ?thesis
      unfolding after_started_def
      using event_generator_phase1_error [OF assms] p1 by fastforce
  next
    case None
    note r1 = this
    show ?thesis
    proof (cases "contains ''BAD_INSTRUCTIONS'' (concat fs1)")
      case True
      then show ?thesis
        unfolding after_started_def
        using event_generator_bad_instructions [OF assms] p1 r1
        by (fastforce simp: bad_instructions_event_def error_event_def)
    next
      case False
      note ok = this
      show ?thesis
      proof (cases r2)
        case (Some e)
        have "event_generator env body =
           started_event # explanation_sent_event #
           map (chunk_event ''explanation_chunk'') fs1 @
           mapping_event # map (chunk_event ''mapping_chunk'') fs2 @ [error_event (str_exn e)]"
          using event_generator_phase2_error [OF assms] p1 r1 ok p2 Some by simp
        then show ?thesis
          unfolding after_started_def by fastforce
      next
        case None
        note r2 = this
        show ?thesis
        proof (cases r3)
          case (Some e)
          have "event_generator env body =
             started_event # explanation_sent_event #
             map (chunk_event ''explanation_chunk'') fs1 @
             mapping_event # map (chunk_event ''mapping_chunk'') fs2 @
             diagram_event # map (chunk_event ''diagram_chunk'') fs3 @ [error_event (str_exn e)]"
            using event_generator_phase3_error [OF assms] p1 r1 ok p2 r2 p3 Some by simp
          then show ?thesis
            unfolding after_started_def by fastforce
        next
          case None
          have "event_generator env body =
             started_event # explanation_sent_event #
             map (chunk_event ''explanation_chunk'') fs1 @
             mapping_event # map (chunk_event ''mapping_chunk'') fs2 @
             diagram_event # map (chunk_event ''diagram_chunk'') fs3 @
             [complete_event (process_click_events (concat fs3) (username body) (repo body)
                              (default_branch gd))]"
            using event_generator_complete [OF assms] p1 r1 ok p2 r2 p3 None by simp
          then show ?thesis
            unfolding after_started_def by fastforce
        qed
      qed
    qed
  qed
qed

section \<open>Validation\<close>

text \<open>
  C2. A request whose instructions are longer than 1000 characters, and a request whose
  repository name is in the reserved list, is answered with an error body at once, and
  no event of the stream is emitted, not even the first.
\<close>

theorem validation_rejects_before_any_event:
  assumes "1000 < length (instructions body) \<or> repo body \<in> set reserved_repos"
  shows "(\<exists>msg. generate_stream env body = JsonReply [(''error'', msg)])
         \<and> events_of (generate_stream env body) = []"
  using assms by (auto simp: generate_stream_def events_of_def)

theorem validation_rejects_before_any_event_witness:
  "(1000 < length (instructions (sample_request\<lparr>instructions := replicate 1001 CHR ''x''\<rparr>))
      \<or> repo (sample_request\<lparr>instructions := replicate 1001 CHR ''x''\<rparr>) \<in> set reserved_repos)
   \<and> (\<exists>msg. generate_stream (sample_environment sample_github ([], None) ([], None) ([], None))
               (sample_request\<lparr>instructions := replicate 1001 CHR ''x''\<rparr>)
             = JsonReply [(''error'', msg)])
   \<and> events_of (generate_stream (sample_environment sample_github ([], None) ([], None) ([], None))
                  (sample_request\<lparr>instructions := replicate 1001 CHR ''x''\<rparr>)) = []"
proof -
  have h: "1000 < length (instructions (sample_request\<lparr>instructions := replicate 1001 CHR ''x''\<rparr>))
      \<or> repo (sample_request\<lparr>instructions := replicate 1001 CHR ''x''\<rparr>) \<in> set reserved_repos"
    by simp
  show ?thesis
    using h validation_rejects_before_any_event [OF h,
        of "sample_environment sample_github ([], None) ([], None) ([], None)"]
    by blast
qed

text \<open>
  C10. The reserved-repository check reads the repository name only: when the name is
  one of fastapi, streamlit, flask, api-analytics, monkeytype the request is rejected
  with an error body whoever the owner is, and for every other name this check never
  rejects, so that a request of admissible length is streamed.
\<close>

theorem reserved_check_reads_repo_only:
  "(repo body \<in> {''fastapi'', ''streamlit'', ''flask'', ''api-analytics'', ''monkeytype''} \<longrightarrow>
      (\<forall>owner. \<exists>msg. generate_stream env (body\<lparr>username := owner\<rparr>) = JsonReply [(''error'', msg)]))
   \<and> (repo body \<notin> {''fastapi'', ''streamlit'', ''flask'', ''api-analytics'', ''monkeytype''} \<longrightarrow>
      (\<forall>owner. generate_stream env (body\<lparr>username := owner\<rparr>)
                 \<noteq> JsonReply [(''error'', ''Example repos cannot be regenerated'')]
               \<and> (length (instructions body) \<le> 1000 \<longrightarrow>
                    generate_stream env (body\<lparr>username := owner\<rparr>)
                      = StreamingResponse (event_generator env (body\<lparr>username := owner\<rparr>)))))"
  by (auto simp: generate_stream_def reserved_repos_def)

theorem reserved_check_reads_repo_only_witness:
  "repo (sample_request\<lparr>repo := ''flask''\<rparr>)
     \<in> {''fastapi'', ''streamlit'', ''flask'', ''api-analytics'', ''monkeytype''}
   \<and> (\<forall>owner. \<exists>msg. generate_stream (sample_environment sample_github ([], None) ([], None) ([], None))
                       (sample_request\<lparr>repo := ''flask'', username := owner\<rparr>)
                     = JsonReply [(''error'', msg)])
   \<and> repo sample_request \<notin> {''fastapi'', ''streamlit'', ''flask'', ''api-analytics'', ''monkeytype''}
   \<and> length (instructions sample_request) \<le> 1000
   \<and> (\<forall>owner. generate_stream (sample_environment sample_github ([], None) ([], None) ([], None))
                 (sample_request\<lparr>username := owner\<rparr>)
               = StreamingResponse
                   (event_generator (sample_environment sample_github ([], None) ([], None) ([], None))
                      (sample_request\<lparr>username := owner\<rparr>)))"
proof -
  have a: "repo (sample_request\<lparr>repo := ''flask''\<rparr>)
     \<in> {''fastapi'', ''streamlit'', ''flask'', ''api-analytics'', ''monkeytype''}"
    by simp
  have b: "repo sample_request \<notin> {''fastapi'', ''streamlit'', ''flask'', ''api-analytics'', ''monkeytype''}"
    by (simp add: sample_request_def)
  have c: "length (instructions sample_request) \<le> 1000"
    by (simp add: sample_request_def)
  show ?thesis
    using a b c
      reserved_check_reads_repo_only [of "sample_request\<lparr>repo := ''flask''\<rparr>"
        "sample_environment sample_github ([], None) ([], None) ([], None)"]
      reserved_check_reads_repo_only [of sample_request
        "sample_environment sample_github ([], None) ([], None) ([], None)"]
    by simp
qed

section \<open>The event stream\<close>

text \<open>
  C5. When the engine raises in the middle of phase 2, the stream is the started record,
  the opening record of the explanation, one chunk per explanation fragment, the opening
  record of the mapping, one chunk per mapping fragment received so far, and then the
  error record of the exception as the last record. No record of the diagram phase is
  sent, and everything sent before the failure stays in the stream.
\<close>

theorem phase2_failure_sequence:
  assumes "length (instructions body) \<le> 1000" and "repo body \<notin> set reserved_repos"
      and "get_cached_github_data env (username body) (repo body) (github_pat body) = Inr gd"
      and "explanation_stream env body gd = (fs1, None)"
      and "\<not> contains ''BAD_INSTRUCTIONS'' (concat fs1)"
      and "mapping_stream env body gd (concat fs1) = (fs2, Some e)"
  shows "generate_stream env body =
           StreamingResponse
             ([started_event, explanation_sent_event]
              @ map (chunk_event ''explanation_chunk'') fs1
              @ [mapping_event]
              @ map (chunk_event ''mapping_chunk'') fs2
              @ [error_event (str_exn e)])
         \<and> butlast (events_of (generate_stream env body)) =
             [started_event, explanation_sent_event]
              @ map (chunk_event ''explanation_chunk'') fs1
              @ [mapping_event]
              @ map (chunk_event ''mapping_chunk'') fs2
         \<and> (\<forall>ev \<in> set (events_of (generate_stream env body)).
               status_of ev \<notin> {Some ''diagram'', Some ''diagram_chunk'', Some ''complete''})"
proof -
  let ?before = "[started_event, explanation_sent_event]
              @ map (chunk_event ''explanation_chunk'') fs1
              @ [mapping_event]
              @ map (chunk_event ''mapping_chunk'') fs2"
  have run: "generate_stream env body = StreamingResponse (?before @ [error_event (str_exn e)])"
    using assms by (simp add: generate_stream_valid event_generator_phase2_error)
  have evs: "events_of (generate_stream env body) = ?before @ [error_event (str_exn e)]"
    by (simp only: run events_of_def reply.case)
  have "butlast (events_of (generate_stream env body)) = ?before"
    by (simp only: evs butlast_snoc)
  moreover have "\<forall>ev \<in> set (?before @ [error_event (str_exn e)]).
      status_of ev \<notin> {Some ''diagram'', Some ''diagram_chunk'', Some ''complete''}"
    by auto
  ultimately show ?thesis
    using run evs by simp
qed

theorem phase2_failure_sequence_witness:
  "length (instructions sample_request) \<le> 1000
   \<and> repo sample_request \<notin> set reserved_repos
   \<and> get_cached_github_data phase2_failure_environment (username sample_request)
        (repo sample_request) (github_pat sample_request) = Inr sample_data
   \<and> explanation_stream phase2_failure_environment sample_request sample_data
        = ([''The repository '', ''is a web app.''], None)
   \<and> \<not> contains ''BAD_INSTRUCTIONS'' (concat [''The repository '', ''is a web app.''])
   \<and> mapping_stream phase2_failure_environment sample_request sample_data
        (concat [''The repository '', ''is a web app.''])
        = ([''frontend: ''], Some (ValueError ''Failed to connect to Ollama API: reset''))
   \<and> generate_stream phase2_failure_environment sample_request =
        StreamingResponse
          [started_event, explanation_sent_event,
           chunk_event ''explanation_chunk'' ''The repository '',
           chunk_event ''explanation_chunk'' ''is a web app.'',
           mapping_event,
           chunk_event ''mapping_chunk'' ''frontend: '',
           error_event ''Failed to connect to Ollama API: reset'']"
proof -
  have a: "get_cached_github_data phase2_failure_environment (username sample_request)
        (repo sample_request) (github_pat sample_request) = Inr sample_data"
    unfolding phase2_failure_environment_def by (rule sample_github_data)
  have b: "explanation_stream phase2_failure_environment sample_request sample_data
        = ([''The repository '', ''is a web app.''], None)"
    unfolding phase2_failure_environment_def by (rule sample_explanation_stream)
  have c: "\<not> contains ''BAD_INSTRUCTIONS'' (concat [''The repository '', ''is a web app.''])"
    by simp
  have d: "mapping_stream phase2_failure_environment sample_request sample_data
        (concat [''The repository '', ''is a web app.''])
        = ([''frontend: ''], Some (ValueError ''Failed to connect to Ollama API: reset''))"
    unfolding phase2_failure_environment_def by (rule sample_mapping_stream)
  show ?thesis
    using sample_request_valid a b c d
      phase2_failure_sequence [OF sample_request_valid a b c d]
    by simp
qed

text \<open>
  C1, as stated, fails. The record that ends the stream when the explanation holds the
  sentinel is an error record, the very record the exception handler sends for an
  exception with that message, so it is not a record of another kind than a failure.
  And when the fragments hold the sentinel but the engine raises before phase 1 ends,
  the last record carries the message of the exception.
\<close>

theorem sentinel_abort_counterexample:
  "contains ''BAD_INSTRUCTIONS'' (concat [''Sorry: BAD_'', ''INSTRUCTIONS''])
   \<and> explanation_stream sentinel_environment sample_request sample_data
        = ([''Sorry: BAD_'', ''INSTRUCTIONS''], None)
   \<and> last (events_of (generate_stream sentinel_environment sample_request))
        = error_event ''Invalid or unclear instructions provided''
   \<and> explanation_stream sentinel_then_raise_environment sample_request sample_data
        = ([''Sorry: BAD_'', ''INSTRUCTIONS''],
           Some (ValueError ''Failed to connect to Ollama API: reset''))
   \<and> last (events_of (generate_stream sentinel_then_raise_environment sample_request))
        = error_event ''Failed to connect to Ollama API: reset''"
proof -
  have a: "get_cached_github_data sentinel_environment (username sample_request)
        (repo sample_request) (github_pat sample_request) = Inr sample_data"
    unfolding sentinel_environment_def by (rule sample_github_data)
  have b: "explanation_stream sentinel_environment sample_request sample_data
        = ([''Sorry: BAD_'', ''INSTRUCTIONS''], None)"
    unfolding sentinel_environment_def by (rule sample_explanation_stream)
  have c: "contains ''BAD_INSTRUCTIONS'' (concat [''Sorry: BAD_'', ''INSTRUCTIONS''])"
    by simp
  have a': "get_cached_github_data sentinel_then_raise_environment (username sample_request)
        (repo sample_request) (github_pat sample_request) = Inr sample_data"
    unfolding sentinel_then_raise_environment_def by (rule sample_github_data)
  have b': "explanation_stream sentinel_then_raise_environment sample_request sample_data
        = ([''Sorry: BAD_'', ''INSTRUCTIONS''],
           Some (ValueError ''Failed to connect to Ollama API: reset''))"
    unfolding sentinel_then_raise_environment_def by (rule sample_explanation_stream)
  have "last (events_of (generate_stream sentinel_environment sample_request))
        = error_event ''Invalid or unclear instructions provided''"
    by (simp add: generate_stream_valid [OF sample_request_valid]
        event_generator_bad_instructions [OF a b c] events_of_def
        bad_instructions_event_def error_event_def)
  moreover have "last (events_of (generate_stream sentinel_then_raise_environment sample_request))
        = error_event ''Failed to connect to Ollama API: reset''"
    by (simp add: generate_stream_valid [OF sample_request_valid]
        event_generator_phase1_error [OF a' b'] events_of_def)
  ultimately show ?thesis
    using b c b' by simp
qed

text \<open>
  C1, amended. For a request that passes validation and whose repository data are
  fetched: if phase 1 ends without an exception and the concatenation of its fragments
  contains BAD\_INSTRUCTIONS, then the stream is exactly the started record, the opening
  record of the explanation, one chunk per fragment, and last the error record with the
  fixed message "Invalid or unclear instructions provided"; no record of the mapping or
  of the diagram phase is sent.
\<close>

theorem sentinel_abort_sequence:
  assumes "length (instructions body) \<le> 1000" and "repo body \<notin> set reserved_repos"
      and "get_cached_github_data env (username body) (repo body) (github_pat body) = Inr gd"
      and "explanation_stream env body gd = (fs1, None)"
      and "contains ''BAD_INSTRUCTIONS'' (concat fs1)"
  shows "generate_stream env body =
           StreamingResponse
             ([started_event, explanation_sent_event]
              @ map (chunk_event ''explanation_chunk'') fs1
              @ [error_event ''Invalid or unclear instructions provided''])
         \<and> (\<forall>ev \<in> set (events_of (generate_stream env body)).
               status_of ev \<notin> {Some ''mapping'', Some ''mapping_chunk'',
                                 Some ''diagram'', Some ''diagram_chunk'', Some ''complete''})"
proof -
  let ?evs = "[started_event, explanation_sent_event]
              @ map (chunk_event ''explanation_chunk'') fs1
              @ [error_event ''Invalid or unclear instructions provided'']"
  have run: "generate_stream env body = StreamingResponse ?evs"
    using assms
    by (simp add: generate_stream_valid event_generator_bad_instructions
        bad_instructions_event_def error_event_def)
  have evs: "events_of (generate_stream env body) = ?evs"
    by (simp only: run events_of_def reply.case)
  have "\<forall>ev \<in> set ?evs.
      status_of ev \<notin> {Some ''mapping'', Some ''mapping_chunk'',
                        Some ''diagram'', Some ''diagram_chunk'', Some ''complete''}"
    by auto
  then show ?thesis
    using run evs by simp
qed

theorem sentinel_abort_sequence_witness:
  "length (instructions sample_request) \<le> 1000
   \<and> repo sample_request \<notin> set reserved_repos
   \<and> get_cached_github_data sentinel_environment (username sample_request)
        (repo sample_request) (github_pat sample_request) = Inr sample_data
   \<and> explanation_stream sentinel_environment sample_request sample_data
        = ([''Sorry: BAD_'', ''INSTRUCTIONS''], None)
   \<and> contains ''BAD_INSTRUCTIONS'' (concat [''Sorry: BAD_'', ''INSTRUCTIONS''])
   \<and> generate_stream sentinel_environment sample_request =
        StreamingResponse
          [started_event, explanation_sent_event,
           chunk_event ''explanation_chunk'' ''Sorry: BAD_'',
           chunk_event ''explanation_chunk'' ''INSTRUCTIONS'',
           error_event ''Invalid or unclear instructions provided'']"
proof -
  have a: "get_cached_github_data sentinel_environment (username sample_request)
        (repo sample_request) (github_pat sample_request) = Inr sample_data"
    unfolding sentinel_environment_def by (rule sample_github_data)
  have b: "explanation_stream sentinel_environment sample_request sample_data
        = ([''Sorry: BAD_'', ''INSTRUCTIONS''], None)"
    unfolding sentinel_environment_def by (rule sample_explanation_stream)
  have c: "contains ''BAD_INSTRUCTIONS'' (concat [''Sorry: BAD_'', ''INSTRUCTIONS''])"
    by simp
  show ?thesis
    using sample_request_valid a b c
      sentinel_abort_sequence [OF sample_request_valid a b c]
    by simp
qed

text \<open>
  C6, as stated, fails: the repository data are fetched inside the generator before the
  started record is sent, so when that fetch raises, a request that passed validation
  gets a stream that consists of the error record alone.
\<close>

theorem stream_without_started_counterexample:
  "length (instructions sample_request) \<le> 1000
   \<and> repo sample_request \<notin> set reserved_repos
   \<and> generate_stream (sample_environment failing_github ([''text''], None) ([''text''], None)
                        ([''text''], None)) sample_request
       = StreamingResponse [error_event ''Repository not found'']
   \<and> error_event ''Repository not found'' \<noteq> started_event"
  by (simp add: generate_stream_def event_generator_def get_cached_github_data_def
      sample_environment_def failing_github_def sample_request_def reserved_repos_def
      error_event_def started_event_def)

text \<open>
  C6, amended. For every request that passes validation the answer is a stream. When
  fetching the repository data raises, the stream is the single error record. Otherwise
  it begins with the started record, which occurs exactly once, goes on with the opening
  record and the chunks of the explanation, of the mapping and of the diagram in this
  order, and stops after any phase with an error record or after the third with the
  record of the finished diagram. In both cases the last record is the only terminal one.
\<close>

theorem event_sequence_shape:
  assumes "length (instructions body) \<le> 1000" and "repo body \<notin> set reserved_repos"
  shows "\<exists>evs. generate_stream env body = StreamingResponse evs
           \<and> (\<forall>e. get_cached_github_data env (username body) (repo body) (github_pat body) = Inl e
                  \<longrightarrow> evs = [error_event (str_exn e)])
           \<and> (\<forall>gd. get_cached_github_data env (username body) (repo body) (github_pat body) = Inr gd
                  \<longrightarrow> after_started evs \<and> hd evs = started_event
                      \<and> count_list evs started_event = 1)
           \<and> evs \<noteq> [] \<and> is_terminal (last evs)
           \<and> (\<forall>ev \<in> set (butlast evs). \<not> is_terminal ev)"
proof (cases "get_cached_github_data env (username body) (repo body) (github_pat body)")
  case (Inl e)
  have "generate_stream env body = StreamingResponse [error_event (str_exn e)]"
    using assms Inl by (simp add: generate_stream_valid event_generator_github_error)
  then show ?thesis
    using Inl by simp
next
  case (Inr gd)
  have run: "generate_stream env body = StreamingResponse (event_generator env body)"
    using assms by (rule generate_stream_valid)
  have shape: "after_started (event_generator env body)"
    using Inr by (rule event_generator_after_started)
  show ?thesis
    using run shape after_started_facts [OF shape] Inr by simp
qed

theorem event_sequence_shape_witness:
  "length (instructions sample_request) \<le> 1000
   \<and> repo sample_request \<notin> set reserved_repos
   \<and> get_cached_github_data phase2_failure_environment (username sample_request)
        (repo sample_request) (github_pat sample_request) = Inr sample_data
   \<and> (\<exists>evs. generate_stream phase2_failure_environment sample_request = StreamingResponse evs
           \<and> after_started evs \<and> hd evs = started_event \<and> count_list evs started_event = 1
           \<and> evs \<noteq> [] \<and> is_terminal (last evs)
           \<and> (\<forall>ev \<in> set (butlast evs). \<not> is_terminal ev))"
proof -
  have a: "get_cached_github_data phase2_failure_environment (username sample_request)
        (repo sample_request) (github_pat sample_request) = Inr sample_data"
    unfolding phase2_failure_environment_def by (rule sample_github_data)
  show ?thesis
    using sample_request_valid a
      event_sequence_shape [OF sample_request_valid, of phase2_failure_environment]
    by auto
qed

section \<open>Link rewriting\<close>

text \<open>
  The matcher agrees with the pattern: it finds a match at the start of a text exactly
  when the text begins with a string the pattern describes, and it returns that string's
  groups and what follows it.
\<close>

lemma dq_not_space [simp]: "\<not> is_space dq"
  by (simp add: is_space_def dq_def)

lemma sq_not_space [simp]: "\<not> is_space sq"
  by (simp add: is_space_def sq_def)

lemma sq_neq_dq [simp]: "sq \<noteq> dq" "dq \<noteq> sq"
  by (simp_all add: sq_def dq_def)

lemma space_not_ident [simp]: "is_space c \<Longrightarrow> \<not> ident_char c"
  by (simp add: ident_char_def)

lemma dq_not_ident [simp]: "\<not> ident_char dq"
  by (simp add: ident_char_def)

lemma takeWhile_stop:
  assumes "\<forall>c \<in> set xs. P c" and "ys = [] \<or> \<not> P (hd ys)"
  shows "takeWhile P (xs @ ys) = xs" and "dropWhile P (xs @ ys) = ys"
  using assms by (cases ys; simp add: takeWhile_append2 dropWhile_append2)+

lemma match_click_directive:
  assumes g1: "g1 \<noteq> []" "\<forall>c \<in> set g1. ident_char c"
      and ws: "ws \<noteq> []" "\<forall>c \<in> set ws. is_space c"
      and g2: "g2 \<noteq> []" "dq \<notin> set g2"
  shows "match_click (''click '' @ g1 @ ws @ quoted g2 @ rest) = Some (g1, g2, rest)"
proof -
  let ?tail2 = "dq # rest"
  let ?tail1 = "dq # g2 @ ?tail2"
  let ?tail0 = "ws @ ?tail1"
  let ?s = "''click '' @ g1 @ ?tail0"
  have pre: "prefix ''click '' ?s"
    by simp
  have d6: "drop 6 ?s = g1 @ ?tail0"
    by simp
  have stop0: "?tail0 = [] \<or> \<not> ident_char (hd ?tail0)"
    using ws by (cases ws) auto
  have t1: "takeWhile ident_char (g1 @ ?tail0) = g1"
   and d1: "dropWhile ident_char (g1 @ ?tail0) = ?tail0"
    using takeWhile_stop [OF g1(2) stop0] by simp_all
  have stop1: "?tail1 = [] \<or> \<not> is_space (hd ?tail1)"
    by simp
  have t2: "takeWhile is_space ?tail0 = ws"
   and d2: "dropWhile is_space ?tail0 = ?tail1"
    using takeWhile_stop [OF ws(2) stop1] by simp_all
  have g2': "\<forall>c \<in> set g2. c \<noteq> dq"
    using g2 by auto
  have stop2: "?tail2 = [] \<or> \<not> (hd ?tail2 \<noteq> dq)"
    by simp
  have t3: "takeWhile (\<lambda>c. c \<noteq> dq) (g2 @ ?tail2) = g2"
   and d3: "dropWhile (\<lambda>c. c \<noteq> dq) (g2 @ ?tail2) = ?tail2"
    using takeWhile_stop [of g2 "\<lambda>c. c \<noteq> dq" ?tail2, OF g2' stop2] by simp_all
  have "match_click ?s = Some (g1, g2, rest)"
    unfolding match_click_def Let_def d6 t1 d1 t2 d2
    using pre g1(1) ws(1) g2(1) by (simp add: t3 d3)
  then show ?thesis
    by (simp add: quoted_def)
qed

lemma match_click_SomeD:
  assumes "match_click s = Some (g1, g2, rest)"
  shows "\<exists>ws. s = ''click '' @ g1 @ ws @ quoted g2 @ rest
              \<and> g1 \<noteq> [] \<and> (\<forall>c \<in> set g1. ident_char c)
              \<and> ws \<noteq> [] \<and> (\<forall>c \<in> set ws. is_space c)
              \<and> g2 \<noteq> [] \<and> dq \<notin> set g2"
proof -
  let ?a = "drop 6 s"
  let ?b = "dropWhile ident_char ?a"
  let ?c = "dropWhile is_space ?b"
  from assms have pre: "prefix ''click '' s"
    unfolding match_click_def by (auto split: if_splits)
  then have s: "s = ''click '' @ ?a"
    by (auto simp: prefix_def)
  from assms pre obtain aq q2 where
    g1: "g1 = takeWhile ident_char ?a" "g1 \<noteq> []" and
    ws: "takeWhile is_space ?b \<noteq> []" and
    c: "?c = dq # aq" and
    g2: "g2 = takeWhile (\<lambda>c. c \<noteq> dq) aq" "g2 \<noteq> []" and
    r0: "dropWhile (\<lambda>c. c \<noteq> dq) aq = q2 # rest"
    unfolding match_click_def Let_def
    by (auto split: if_splits list.splits)
  have "\<not> (hd (dropWhile (\<lambda>c. c \<noteq> dq) aq) \<noteq> dq)"
    by (rule hd_dropWhile) (simp add: r0)
  then have r: "dropWhile (\<lambda>c. c \<noteq> dq) aq = dq # rest"
    using r0 by simp
  have "?a = g1 @ ?b"
    unfolding g1 by simp
  also have "?b = takeWhile is_space ?b @ ?c"
    by simp
  also have "?c = dq # g2 @ dq # rest"
    unfolding c g2 using r takeWhile_dropWhile_id [of "\<lambda>c. c \<noteq> dq" aq] by simp
  finally have "s = ''click '' @ g1 @ takeWhile is_space ?b @ quoted g2 @ rest"
    using s by (simp add: quoted_def)
  moreover have "\<forall>c \<in> set g1. ident_char c"
    unfolding g1 by (auto dest: set_takeWhileD)
  moreover have "\<forall>c \<in> set (takeWhile is_space ?b). is_space c"
    by (auto dest: set_takeWhileD)
  moreover have "dq \<notin> set g2"
    unfolding g2 by (auto dest: set_takeWhileD)
  ultimately show ?thesis
    using g1(2) ws g2(2) by blast
qed

lemma match_click_iff:
  "match_click s = Some (g1, g2, rest) \<longleftrightarrow> (\<exists>m. s = m @ rest \<and> is_click_match m g1 g2)"
proof
  assume "match_click s = Some (g1, g2, rest)"
  from match_click_SomeD [OF this] obtain ws where
    "s = (''click '' @ g1 @ ws @ quoted g2) @ rest"
    "g1 \<noteq> []" "\<forall>c \<in> set g1. ident_char c" "ws \<noteq> []" "\<forall>c \<in> set ws. is_space c"
    "g2 \<noteq> []" "dq \<notin> set g2"
    by auto
  then show "\<exists>m. s = m @ rest \<and> is_click_match m g1 g2"
    unfolding is_click_match_def ident_char_def by blast
next
  assume "\<exists>m. s = m @ rest \<and> is_click_match m g1 g2"
  then obtain ws where
    s: "s = ''click '' @ g1 @ ws @ quoted g2 @ rest" and
    g: "g1 \<noteq> []" "\<forall>c \<in> set g1. ident_char c" "ws \<noteq> []" "\<forall>c \<in> set ws. is_space c"
       "g2 \<noteq> []" "dq \<notin> set g2"
    unfolding is_click_match_def ident_char_def by auto
  show "match_click s = Some (g1, g2, rest)"
    unfolding s by (rule match_click_directive [OF g])
qed

lemma match_click_Nil [simp]: "match_click [] = None"
  by (simp add: match_click_def)

lemma has_match_iff:
  "has_match s \<longleftrightarrow> (\<exists>pre m g1 g2 post. s = pre @ m @ post \<and> is_click_match m g1 g2)"
proof (induction s)
  case Nil
  show ?case
    by (auto simp: is_click_match_def)
next
  case (Cons c cs)
  show ?case
  proof
    assume "has_match (c # cs)"
    then consider (here) "match_click (c # cs) \<noteq> None" | (later) "has_match cs"
      by auto
    then show "\<exists>pre m g1 g2 post. c # cs = pre @ m @ post \<and> is_click_match m g1 g2"
    proof cases
      case here
      then obtain g1 g2 rest where "match_click (c # cs) = Some (g1, g2, rest)"
        by (cases "match_click (c # cs)") auto
      then obtain m where "c # cs = [] @ m @ rest" "is_click_match m g1 g2"
        using match_click_iff by auto
      then show ?thesis by blast
    next
      case later
      then obtain pre m g1 g2 post where "cs = pre @ m @ post" "is_click_match m g1 g2"
        using Cons.IH by blast
      then have "c # cs = (c # pre) @ m @ post" by simp
      then show ?thesis using \<open>is_click_match m g1 g2\<close> by blast
    qed
  next
    assume "\<exists>pre m g1 g2 post. c # cs = pre @ m @ post \<and> is_click_match m g1 g2"
    then obtain pre m g1 g2 post where
      eq: "c # cs = pre @ m @ post" and m: "is_click_match m g1 g2"
      by blast
    show "has_match (c # cs)"
    proof (cases pre)
      case Nil
      then have "match_click (c # cs) = Some (g1, g2, post)"
        using eq m match_click_iff [of "c # cs" g1 g2 post] by auto
      then show ?thesis by simp
    next
      case (Cons p pre')
      then have "cs = pre' @ m @ post"
        using eq by simp
      then have "has_match cs"
        using Cons.IH m by blast
      then show ?thesis by simp
    qed
  qed
qed

lemma re_sub_click_prefix:
  "starts_no_match pre rest \<Longrightarrow> re_sub_click repl (pre @ rest) = pre @ re_sub_click repl rest"
  by (induction pre) simp_all

lemma re_sub_click_match:
  assumes "match_click s = Some (g1, g2, rest)"
  shows "re_sub_click repl s = repl g1 g2 @ re_sub_click repl rest"
  using assms by (cases s) simp_all

lemma re_sub_click_no_match:
  "\<not> has_match s \<Longrightarrow> re_sub_click repl s = s"
  by (induction s) (auto split: option.splits)



text \<open>At one place of a text the pattern matches at most one string.\<close>

lemma click_match_unique:
  assumes "is_click_match m g1 g2" and "is_click_match m' g1' g2'" and "m @ rest = m' @ rest'"
  shows "m = m' \<and> g1 = g1' \<and> g2 = g2' \<and> rest = rest'"
proof -
  have "match_click (m @ rest) = Some (g1, g2, rest)"
    using assms(1) match_click_iff by blast
  moreover have "match_click (m' @ rest') = Some (g1', g2', rest')"
    using assms(2) match_click_iff by blast
  ultimately have "g1 = g1'" "g2 = g2'" "rest = rest'"
    using assms(3) by simp_all
  then show ?thesis
    using assms(3) by simp
qed

text \<open>
  The last element of \<open>path.split("/")\<close> is the part of the path behind its last slash,
  the whole path when it has none.
\<close>

lemma split_on_not_Nil [simp]: "split_on sep s \<noteq> []"
  by (cases s) (simp_all split: list.splits)

lemma split_on_no_sep:
  "sep \<notin> set s \<Longrightarrow> split_on sep s = [s]"
  by (induction s) auto

lemma split_on_with_sep:
  "sep \<in> set s \<Longrightarrow> \<exists>seg seg' segs. split_on sep s = seg # seg' # segs"
proof (induction s)
  case Nil
  then show ?case by simp
next
  case (Cons c cs)
  show ?case
  proof (cases "c = sep")
    case True
    then show ?thesis
      by (cases "split_on sep cs") (auto split: list.splits)
  next
    case False
    with Cons.prems have "sep \<in> set cs" by simp
    with Cons.IH obtain seg seg' segs where "split_on sep cs = seg # seg' # segs" by blast
    with False show ?thesis by simp
  qed
qed

lemma takeWhile_snoc_stop:
  "\<not> P x \<Longrightarrow> takeWhile P (xs @ [x]) = takeWhile P xs"
  by (induction xs) auto

lemma last_split_on:
  "last (split_on sep s) = rev (takeWhile (\<lambda>c. c \<noteq> sep) (rev s))"
proof (induction s)
  case Nil
  show ?case by simp
next
  case (Cons c cs)
  show ?case
  proof (cases "c = sep")
    case True
    then show ?thesis
      using Cons.IH by (simp add: takeWhile_snoc_stop)
  next
    case False
    note c = this
    show ?thesis
    proof (cases "sep \<in> set cs")
      case True
      from split_on_with_sep [OF True] obtain seg seg' segs where
        sp: "split_on sep cs = seg # seg' # segs" by blast
      from True have "\<not> (\<forall>x \<in> set (rev cs). x \<noteq> sep)" by auto
      then have "takeWhile (\<lambda>c. c \<noteq> sep) (rev cs @ [c]) = takeWhile (\<lambda>c. c \<noteq> sep) (rev cs)"
        by (metis (mono_tags, lifting) takeWhile_append1)
      then show ?thesis
        using Cons.IH c sp by simp
    next
      case False
      then have tw: "takeWhile (\<lambda>c. c \<noteq> sep) (rev cs @ [c]) = rev cs @ [c]"
        using c by (auto simp: takeWhile_append2)
      have "sep \<notin> set (c # cs)"
        using c False by simp
      then have "split_on sep (c # cs) = [c # cs]"
        by (rule split_on_no_sep)
      then have "last (split_on sep (c # cs)) = c # cs"
        by (simp only: last.simps simp_thms if_True)
      also have "\<dots> = rev (takeWhile (\<lambda>c. c \<noteq> sep) (rev (c # cs)))"
        unfolding rev.simps tw by simp
      finally show ?thesis .
    qed
  qed
qed

lemma final_segment:
  "\<exists>front. s = front @ last (split_on sep s)
           \<and> sep \<notin> set (last (split_on sep s))
           \<and> (front = [] \<or> last front = sep)"
proof -
  let ?P = "\<lambda>c. c \<noteq> sep"
  let ?seg = "rev (takeWhile ?P (rev s))"
  let ?front = "rev (dropWhile ?P (rev s))"
  have "s = ?front @ ?seg"
    by (metis rev_append rev_rev_ident takeWhile_dropWhile_id)
  moreover have "sep \<notin> set ?seg"
    by (auto dest: set_takeWhileD)
  moreover have "?front = [] \<or> last ?front = sep"
  proof (cases "dropWhile ?P (rev s)")
    case Nil
    then show ?thesis by simp
  next
    case (Cons x xs)
    then have "\<not> ?P (hd (dropWhile ?P (rev s)))"
      using hd_dropWhile [of ?P "rev s"] by simp
    with Cons show ?thesis by simp
  qed
  ultimately show ?thesis
    unfolding last_split_on by blast
qed

text \<open>
  C3, as stated, fails: the path put into the URL is the quoted path with the
  apostrophes at its ends stripped, not the quoted path itself.
\<close>

theorem quoted_path_counterexample:
  "process_click_events (''click A '' @ quoted ([sq] @ ''a/b'' @ [sq])) ''o'' ''r'' ''main''
     = ''click A '' @ quoted ''https://github.com/o/r/tree/main/a/b''
   \<and> process_click_events (''click A '' @ quoted ([sq] @ ''a/b'' @ [sq])) ''o'' ''r'' ''main''
     \<noteq> ''click A '' @ quoted (''https://github.com/o/r/tree/main/'' @ [sq] @ ''a/b'' @ [sq])"
  by code_simp

text \<open>
  C3, amended. For every diagram text, owner, repo and branch, a click directive in front
  of which no other match starts is replaced by the word click, the identifier, one
  space and, in double quotes, the URL https://github.com/owner/repo/blob-or-tree/branch/path,
  where path is the quoted path without the apostrophes at its two ends, and blob is
  chosen exactly when the part of that path after its last slash contains a dot, tree
  otherwise; the text before the directive is kept and the text after it is rewritten in
  the same way. In particular a/b/c.tar.gz gives blob and a/b/c gives tree.
\<close>

theorem click_directive_rewritten:
  assumes "group1 \<noteq> []" and "\<forall>c \<in> set group1. \<not> is_space c \<and> c \<noteq> dq"
      and "spaces \<noteq> []" and "\<forall>c \<in> set spaces. is_space c"
      and "group2 \<noteq> []" and "dq \<notin> set group2"
      and "starts_no_match before (''click '' @ group1 @ spaces @ quoted group2 @ after)"
  shows "process_click_events (before @ ''click '' @ group1 @ spaces @ quoted group2 @ after)
           owner repo_name branch
         = before
           @ ''click '' @ group1 @ '' ''
           @ quoted (''https://github.com/'' @ owner @ ''/'' @ repo_name @ ''/''
                     @ (if CHR ''.'' \<in> set (last (split_on CHR ''/'' (strip_chars [dq, sq] group2)))
                        then ''blob'' else ''tree'')
                     @ ''/'' @ branch @ ''/'' @ strip_chars [dq, sq] group2)
           @ process_click_events after owner repo_name branch
         \<and> process_click_events (''click A '' @ quoted ''a/b/c.tar.gz'') ''o'' ''r'' ''main''
           = ''click A '' @ quoted ''https://github.com/o/r/blob/main/a/b/c.tar.gz''
         \<and> process_click_events (''click B '' @ quoted ''a/b/c'') ''o'' ''r'' ''main''
           = ''click B '' @ quoted ''https://github.com/o/r/tree/main/a/b/c''"
proof -
  let ?directive = "''click '' @ group1 @ spaces @ quoted group2 @ after"
  let ?repl = "replace_path owner repo_name branch"
  have ident: "\<forall>c \<in> set group1. ident_char c"
    using assms(2) by (simp add: ident_char_def)
  have m: "match_click ?directive = Some (group1, group2, after)"
    by (rule match_click_directive [OF assms(1) ident assms(3-6)])
  have "re_sub_click ?repl (before @ ?directive) = before @ re_sub_click ?repl ?directive"
    using assms(7) by (rule re_sub_click_prefix)
  also have "re_sub_click ?repl ?directive = ?repl group1 group2 @ re_sub_click ?repl after"
    using m by (rule re_sub_click_match)
  finally have general:
    "process_click_events (before @ ?directive) owner repo_name branch
       = before @ ?repl group1 group2 @ process_click_events after owner repo_name branch"
    by (simp add: process_click_events_def)
  have ex_file: "process_click_events (''click A '' @ quoted ''a/b/c.tar.gz'') ''o'' ''r'' ''main''
           = ''click A '' @ quoted ''https://github.com/o/r/blob/main/a/b/c.tar.gz''"
    by code_simp
  have ex_dir: "process_click_events (''click B '' @ quoted ''a/b/c'') ''o'' ''r'' ''main''
           = ''click B '' @ quoted ''https://github.com/o/r/tree/main/a/b/c''"
    by code_simp
  show ?thesis
    using general ex_file ex_dir by (simp add: replace_path_def Let_def)
qed

theorem click_directive_rewritten_witness:
  "list_all (\<lambda>c. \<not> is_space c \<and> c \<noteq> dq) ''A''
   \<and> list_all is_space '' ''
   \<and> dq \<notin> set ''src/main.py''
   \<and> starts_no_match (''graph TD'' @ [CHR 0x0A])
         (''click '' @ ''A'' @ '' '' @ quoted ''src/main.py''
            @ ([CHR 0x0A] @ ''click B  '' @ quoted ''docs''))
   \<and> process_click_events
         ((''graph TD'' @ [CHR 0x0A]) @ ''click '' @ ''A'' @ '' '' @ quoted ''src/main.py''
            @ ([CHR 0x0A] @ ''click B  '' @ quoted ''docs''))
         ''octocat'' ''hello-world'' ''main''
       = ''graph TD'' @ [CHR 0x0A]
         @ ''click A '' @ quoted ''https://github.com/octocat/hello-world/blob/main/src/main.py''
         @ [CHR 0x0A]
         @ ''click B '' @ quoted ''https://github.com/octocat/hello-world/tree/main/docs''"
proof -
  have a: "''A'' \<noteq> []" "\<forall>c \<in> set ''A''. \<not> is_space c \<and> c \<noteq> dq"
          "'' '' \<noteq> []" "\<forall>c \<in> set '' ''. is_space c"
          "''src/main.py'' \<noteq> []" "dq \<notin> set ''src/main.py''"
    by (simp_all add: is_space_def dq_def)
  have b: "starts_no_match (''graph TD'' @ [CHR 0x0A])
             (''click '' @ ''A'' @ '' '' @ quoted ''src/main.py''
                @ ([CHR 0x0A] @ ''click B  '' @ quoted ''docs''))"
    by code_simp
  have "process_click_events
         ((''graph TD'' @ [CHR 0x0A]) @ ''click '' @ ''A'' @ '' '' @ quoted ''src/main.py''
            @ ([CHR 0x0A] @ ''click B  '' @ quoted ''docs''))
         ''octocat'' ''hello-world'' ''main''
       = (''graph TD'' @ [CHR 0x0A])
         @ ''click '' @ ''A'' @ '' ''
         @ quoted (''https://github.com/'' @ ''octocat'' @ ''/'' @ ''hello-world'' @ ''/''
                   @ (if CHR ''.'' \<in> set (last (split_on CHR ''/''
                                                 (strip_chars [dq, sq] ''src/main.py'')))
                      then ''blob'' else ''tree'')
                   @ ''/'' @ ''main'' @ ''/'' @ strip_chars [dq, sq] ''src/main.py'')
         @ process_click_events ([CHR 0x0A] @ ''click B  '' @ quoted ''docs'')
             ''octocat'' ''hello-world'' ''main''"
    by (rule conjunct1 [OF click_directive_rewritten [OF a b]])
  also have "\<dots> = ''graph TD'' @ [CHR 0x0A]
         @ ''click A '' @ quoted ''https://github.com/octocat/hello-world/blob/main/src/main.py''
         @ [CHR 0x0A]
         @ ''click B '' @ quoted ''https://github.com/octocat/hello-world/tree/main/docs''"
    by code_simp
  finally show ?thesis
    using a b by (simp add: list_all_iff)
qed




text \<open>
  C7, as stated, fails in its second half: the whitespace between identifier and path
  may be a line break, so two lines neither of which holds a match can be rewritten
  into one.
\<close>

theorem line_rewritten_counterexample:
  "split_on CHR 0x0A (''click A'' @ [CHR 0x0A] @ quoted ''x'') = [''click A'', quoted ''x'']
   \<and> \<not> has_match ''click A''
   \<and> \<not> has_match (quoted ''x'')
   \<and> split_on CHR 0x0A
        (process_click_events (''click A'' @ [CHR 0x0A] @ quoted ''x'') ''o'' ''r'' ''main'')
      = [''click A '' @ quoted ''https://github.com/o/r/tree/main/x'']"
  by code_simp

text \<open>
  C7, amended. A text no part of which is matched by the pattern is returned unchanged;
  and within any text, a first part in which no match starts is copied as it is and
  rewriting goes on behind it.
\<close>

theorem non_matching_text_unchanged:
  "(\<not> (\<exists>before m group1 group2 after.
           diagram = before @ m @ after \<and> is_click_match m group1 group2)
      \<longrightarrow> process_click_events diagram owner repo_name branch = diagram)
   \<and> (starts_no_match before rest
      \<longrightarrow> process_click_events (before @ rest) owner repo_name branch
          = before @ process_click_events rest owner repo_name branch)"
  using has_match_iff [of diagram]
  by (simp add: process_click_events_def re_sub_click_no_match re_sub_click_prefix)

theorem non_matching_text_unchanged_witness:
  "\<not> (\<exists>before m group1 group2 after.
          ''graph TD; A-->B'' = before @ m @ after \<and> is_click_match m group1 group2)
   \<and> process_click_events ''graph TD; A-->B'' ''o'' ''r'' ''main'' = ''graph TD; A-->B''
   \<and> starts_no_match (''click A'' @ [CHR 0x0A]) (''click B '' @ quoted ''x'')
   \<and> process_click_events ((''click A'' @ [CHR 0x0A]) @ ''click B '' @ quoted ''x'')
        ''o'' ''r'' ''main''
     = (''click A'' @ [CHR 0x0A])
       @ process_click_events (''click B '' @ quoted ''x'') ''o'' ''r'' ''main''"
proof -
  have "\<not> has_match ''graph TD; A-->B''"
    by code_simp
  then have a: "\<not> (\<exists>before m group1 group2 after.
          ''graph TD; A-->B'' = before @ m @ after \<and> is_click_match m group1 group2)"
    using has_match_iff [of "''graph TD; A-->B''"] by simp
  have b: "starts_no_match (''click A'' @ [CHR 0x0A]) (''click B '' @ quoted ''x'')"
    by code_simp
  show ?thesis
    using a b
      non_matching_text_unchanged [of "''graph TD; A-->B''" "''o''" "''r''" "''main''"
        "''click A'' @ [CHR 0x0A]" "''click B '' @ quoted ''x''"]
    by blast
qed

end
